theory Spec2Isabelle
  imports Complex_Main "HOL-Library.AList"
begin

section \<open>Vectors and Python errors\<close>

text \<open>
  \<^verbatim>\<open>pygame.Vector2\<close> is a pair of doubles. A finite double is a real number, so a vector
  is a pair of reals. The zoom transform is computed in exact real arithmetic, as the claim
  about it is stated; the pan is computed with the rounding of doubles, since the claim
  about it asks for exact equality. Dividing a vector by a zero scalar raises
  \<^verbatim>\<open>ZeroDivisionError\<close> in pygame; that is the only exception the camera can raise.
\<close>

type_synonym vec2 = "real \<times> real"

datatype py_error = ZeroDivisionError

definition vadd :: "vec2 \<Rightarrow> vec2 \<Rightarrow> vec2" where
  "vadd p q = (fst p + fst q, snd p + snd q)"

definition vsub :: "vec2 \<Rightarrow> vec2 \<Rightarrow> vec2" where
  "vsub p q = (fst p - fst q, snd p - snd q)"

definition vscale :: "vec2 \<Rightarrow> real \<Rightarrow> vec2" where
  "vscale p k = (fst p * k, snd p * k)"

text \<open>The quotient of a vector by a scalar known to be non-zero (a literal in the source).\<close>

definition vquot :: "vec2 \<Rightarrow> real \<Rightarrow> vec2" where
  "vquot p k = (fst p / k, snd p / k)"

text \<open>\<^verbatim>\<open>Vector2.__truediv__\<close>: raises on a zero divisor.\<close>

definition vdiv :: "vec2 \<Rightarrow> real \<Rightarrow> py_error + vec2" where
  "vdiv p k = (if k = 0 then Inl ZeroDivisionError else Inr (vquot p k))"

definition distance_to :: "vec2 \<Rightarrow> vec2 \<Rightarrow> real" where
  "distance_to p q = sqrt ((fst q - fst p)\<^sup>2 + (snd q - snd p)\<^sup>2)"

section \<open>Doubles\<close>

text \<open>Powers of two with an integer exponent.\<close>

definition pow2 :: "int \<Rightarrow> real" where
  "pow2 e = (if 0 \<le> e then 2 ^ nat e else 1 / 2 ^ nat (- e))"

text \<open>Rounding to the nearest integer, ties to the even one.\<close>

definition round_half_even :: "real \<Rightarrow> int" where
  "round_half_even y =
     (let f = \<lfloor>y\<rfloor>; r = y - of_int f
      in if r < 1/2 then f else if 1/2 < r then f + 1 else if even f then f else f + 1)"

text \<open>
  The nearest double of a real, as IEEE 754 binary64 arithmetic rounds every result: 53
  significant bits, ties to even, and a least exponent of -1022, below which the spacing of
  the doubles stays \<open>2 ^ -1074\<close>. The rounding is symmetric in the sign. A result whose
  magnitude reaches \<open>2 ^ 1024 - 2 ^ 970\<close> becomes an infinity in the code; the model has no
  infinity, so statements about rounded results are made for the results that stay finite.
\<close>

definition float64_exponent :: "real \<Rightarrow> int" where
  "float64_exponent x = max \<lfloor>log 2 x\<rfloor> (- 1022)"

definition float64_round_pos :: "real \<Rightarrow> real" where
  "float64_round_pos x =
     (let q = pow2 (float64_exponent x - 52)
      in of_int (round_half_even (x / q)) * q)"

definition float64_round :: "real \<Rightarrow> real" where
  "float64_round x =
     (if x = 0 then 0
      else if x < 0 then - float64_round_pos (- x)
      else float64_round_pos x)"

definition float64_finite :: "real \<Rightarrow> bool" where
  "float64_finite x = (\<bar>x\<bar> < 2 ^ 1024 - 2 ^ 970)"

text \<open>The relative rounding error of a double, and the absolute one below the least exponent.\<close>

definition float64_unit :: real where
  "float64_unit = 1 / 2 ^ 53"

definition float64_tiny :: real where
  "float64_tiny = 1 / 2 ^ 1075"

section \<open>The camera (camera.py)\<close>

text \<open>
  The fields of class \<^verbatim>\<open>Camera\<close>. The private fields \<^verbatim>\<open>_dragging\<close> and
  \<^verbatim>\<open>_last_mouse_pos\<close> lose their leading underscore. \<^verbatim>\<open>touches\<close> is a Python dict,
  which keeps insertion order; \<^verbatim>\<open>list(self.touches.values())\<close> depends on that order, so the
  dict is an association list: assignment replaces the value of a present key in place and
  appends an absent key (\<open>AList.update\<close>), \<^verbatim>\<open>del\<close> removes the key (\<open>AList.delete\<close>).
\<close>

record camera =
  min_zoom :: real
  max_zoom :: real
  zoom_sensitivity :: real
  position :: vec2
  zoom :: real
  pan_enabled :: bool
  dragging :: bool
  last_mouse_pos :: vec2
  touches :: "(int \<times> vec2) list"
  last_pinch_dist :: "real option"
  is_dragging :: bool

text \<open>\<^verbatim>\<open>Camera.__init__\<close> (lines 16-34): no argument is checked.\<close>

definition camera_init :: "real \<Rightarrow> real \<Rightarrow> real \<Rightarrow> camera" where
  "camera_init mn mx sens =
     \<lparr> min_zoom = mn, max_zoom = mx, zoom_sensitivity = sens,
       position = (0, 0), zoom = 1,
       pan_enabled = True, dragging = False, last_mouse_pos = (0, 0),
       touches = [], last_pinch_dist = None, is_dragging = False \<rparr>"

text \<open>The defaults of the constructor's signature.\<close>

definition camera_default :: camera where
  "camera_default = camera_init 0.0015 20 1"

text \<open>
  A call either returns the updated camera or raises; a raise keeps the camera as the
  assignments executed before it left it.
\<close>

type_synonym outcome = "(py_error \<times> camera) + camera"

definition state_of :: "outcome \<Rightarrow> camera" where
  "state_of r = (case r of Inl (e, c) \<Rightarrow> c | Inr c \<Rightarrow> c)"

definition raised :: "outcome \<Rightarrow> bool" where
  "raised r = (case r of Inl x \<Rightarrow> True | Inr c \<Rightarrow> False)"

text \<open>
  \<^verbatim>\<open>_screen_size\<close>: the size of the display surface, \<open>(1, 1)\<close> when there is none. The
  surface belongs to pygame, so its size (if any) is a parameter of every operation.
\<close>

definition screen_size :: "(int \<times> int) option \<Rightarrow> int \<times> int" where
  "screen_size surf = (case surf of None \<Rightarrow> (1, 1) | Some sz \<Rightarrow> sz)"

definition screen_center :: "(int \<times> int) option \<Rightarrow> vec2" where
  "screen_center surf =
     (case screen_size surf of (screen_w, screen_h) \<Rightarrow>
        (real_of_int screen_w / 2, real_of_int screen_h / 2))"

text \<open>The clamp of line 58.\<close>

definition clamp_zoom :: "camera \<Rightarrow> real \<Rightarrow> real" where
  "clamp_zoom c new_zoom = max (min_zoom c) (min (max_zoom c) new_zoom)"

text \<open>
  \<^verbatim>\<open>_apply_zoom_around_point\<close> (lines 46-61). Line 55 divides by the current zoom, line 58
  commits the clamped zoom, line 61 divides by the new zoom.
\<close>

definition apply_zoom_around_point ::
  "(int \<times> int) option \<Rightarrow> camera \<Rightarrow> real \<Rightarrow> vec2 \<Rightarrow> outcome" where
  "apply_zoom_around_point surf c new_zoom screen_point =
     (let center = screen_center surf in
      case vdiv (vsub screen_point center) (zoom c) of
        Inl e \<Rightarrow> Inl (e, c)
      | Inr q \<Rightarrow>
          (let world_before = vadd q (position c);
               c1 = c\<lparr>zoom := clamp_zoom c new_zoom\<rparr>
           in (case vdiv (vsub screen_point center) (zoom c1) of
                 Inl e \<Rightarrow> Inl (e, c1)
               | Inr q1 \<Rightarrow> Inr (c1\<lparr>position := vsub world_before q1\<rparr>))))"

text \<open>
  \<^verbatim>\<open>_pan_with_delta\<close> (lines 63-73), in double arithmetic: the literal \<^verbatim>\<open>0.05\<close> is the
  nearest double, and the quotient, the two products and the two differences are rounded.
  The divisor is at least that double, so the division cannot raise.
\<close>

definition pan_with_delta :: "camera \<Rightarrow> vec2 \<Rightarrow> camera" where
  "pan_with_delta c rel =
     (let PAN_BASE_SPEED = 3;
          zoom_factor = max (zoom c) (float64_round 0.05);
          k = float64_round (PAN_BASE_SPEED / zoom_factor);
          move = (float64_round (fst rel * k), float64_round (snd rel * k))
      in c\<lparr>position := (float64_round (fst (position c) - fst move),
                          float64_round (snd (position c) - snd move))\<rparr>)"

text \<open>The position of a finger event: normalised coordinates times the screen size.\<close>

definition finger_pos :: "(int \<times> int) option \<Rightarrow> real \<Rightarrow> real \<Rightarrow> vec2" where
  "finger_pos surf x y =
     (case screen_size surf of (screen_w, screen_h) \<Rightarrow>
        (x * real_of_int screen_w, y * real_of_int screen_h))"

text \<open>\<^verbatim>\<open>_handle_finger_down\<close> (lines 79-92).\<close>

definition handle_finger_down ::
  "(int \<times> int) option \<Rightarrow> camera \<Rightarrow> int \<Rightarrow> real \<Rightarrow> real \<Rightarrow> camera" where
  "handle_finger_down surf c finger_id x y =
     (let pos = finger_pos surf x y;
          c1 = c\<lparr>touches := AList.update finger_id pos (touches c)\<rparr>
      in if length (touches c1) = 1 then
           c1\<lparr>dragging := True, is_dragging := True, last_mouse_pos := pos\<rparr>
         else if length (touches c1) = 2 then
           (let fingers = map snd (touches c1)
            in c1\<lparr>last_pinch_dist := Some (distance_to (fingers ! 0) (fingers ! 1))\<rparr>)
         else c1)"

text \<open>\<^verbatim>\<open>_handle_finger_up\<close> (lines 94-107).\<close>

definition handle_finger_up :: "camera \<Rightarrow> int \<Rightarrow> camera" where
  "handle_finger_up c finger_id =
     (let c1 = (if map_of (touches c) finger_id \<noteq> None
                then c\<lparr>touches := AList.delete finger_id (touches c)\<rparr> else c)
      in if length (touches c1) = 0 then
           c1\<lparr>dragging := False, is_dragging := False, last_pinch_dist := None\<rparr>
         else if length (touches c1) = 1 then
           (let remaining_pos = map snd (touches c1) ! 0
            in c1\<lparr>last_mouse_pos := remaining_pos, last_pinch_dist := None\<rparr>)
         else c1)"

text \<open>
  \<^verbatim>\<open>_handle_finger_motion\<close> (lines 109-148). The dict is updated (line 115) before the
  fingers are read (line 126), and line 148 is not reached when the zoom raises.
\<close>

definition pinch_step ::
  "(int \<times> int) option \<Rightarrow> camera \<Rightarrow> real \<Rightarrow> vec2 \<Rightarrow> vec2 \<Rightarrow> outcome" where
  "pinch_step surf c factor p1 p2 =
     (let new_zoom = zoom c * factor;
          pinch_center = vquot (vadd p1 p2) 2
      in apply_zoom_around_point surf c new_zoom pinch_center)"

definition set_pinch_dist :: "real \<Rightarrow> outcome \<Rightarrow> outcome" where
  "set_pinch_dist d r =
     (case r of Inl x \<Rightarrow> Inl x | Inr c \<Rightarrow> Inr (c\<lparr>last_pinch_dist := Some d\<rparr>))"

definition handle_finger_motion ::
  "(int \<times> int) option \<Rightarrow> camera \<Rightarrow> int \<Rightarrow> real \<Rightarrow> real \<Rightarrow> outcome" where
  "handle_finger_motion surf c finger_id x y =
     (let new_pos = finger_pos surf x y;
          old_pos = (case map_of (touches c) finger_id of None \<Rightarrow> new_pos | Some p \<Rightarrow> p);
          c1 = c\<lparr>touches := AList.update finger_id new_pos (touches c)\<rparr>
      in if length (touches c1) = 1 then
           (let rel = vsub new_pos old_pos
            in Inr (pan_with_delta (c1\<lparr>dragging := True, is_dragging := True\<rparr>) rel))
         else if length (touches c1) = 2 then
           (let fingers = map snd (touches c1);
                p1 = fingers ! 0;
                p2 = fingers ! 1;
                new_dist = distance_to p1 p2
            in set_pinch_dist new_dist
                 (case last_pinch_dist c1 of
                    None \<Rightarrow> Inr c1
                  | Some d \<Rightarrow>
                      if d > 0 then
                        (let dist_ratio = new_dist / d
                         in if dist_ratio > 1.01 then pinch_step surf c1 0.9 p1 p2
                            else if dist_ratio < 0.99 then pinch_step surf c1 1.1 p1 p2
                            else Inr c1)
                      else Inr c1))
         else Inr c1)"

text \<open>
  The pygame events that \<^verbatim>\<open>handle_event\<close> tells apart, with the attributes it reads.
  The scroll wheel arrives as a button-down with button 4 or 5.
\<close>

datatype event =
    FINGERDOWN int real real
  | FINGERUP int
  | FINGERMOTION int real real
  | MOUSEBUTTONDOWN int vec2
  | MOUSEBUTTONUP int
  | MOUSEMOTION vec2
  | OTHER

text \<open>\<^verbatim>\<open>handle_event\<close> (lines 154-201).\<close>

fun handle_event :: "(int \<times> int) option \<Rightarrow> camera \<Rightarrow> event \<Rightarrow> outcome" where
  "handle_event surf c (FINGERDOWN finger_id x y) = Inr (handle_finger_down surf c finger_id x y)"
| "handle_event surf c (FINGERUP finger_id) = Inr (handle_finger_up c finger_id)"
| "handle_event surf c (FINGERMOTION finger_id x y) = handle_finger_motion surf c finger_id x y"
| "handle_event surf c (MOUSEBUTTONDOWN button pos) =
     (if touches c \<noteq> [] then Inr c
      else if button = 3 \<and> pan_enabled c then
        Inr (c\<lparr>dragging := True, is_dragging := True, last_mouse_pos := pos\<rparr>)
      else if button = 4 then apply_zoom_around_point surf c (zoom c * 0.9) pos
      else if button = 5 then apply_zoom_around_point surf c (zoom c * 1.1) pos
      else Inr c)"
| "handle_event surf c (MOUSEBUTTONUP button) =
     (if touches c \<noteq> [] then Inr c
      else if button = 3 then Inr (c\<lparr>dragging := False, is_dragging := False\<rparr>)
      else Inr c)"
| "handle_event surf c (MOUSEMOTION rel) =
     (if touches c \<noteq> [] then Inr c
      else if dragging c \<and> pan_enabled c then Inr (pan_with_delta c rel)
      else Inr c)"
| "handle_event surf c OTHER = Inr c"

text \<open>
  The event loop of \<^verbatim>\<open>main\<close> hands every event to \<^verbatim>\<open>cam.handle_event\<close> in arrival
  order; an exception ends the program, so the run stops at the first raise.
\<close>

fun handle_events :: "(int \<times> int) option \<Rightarrow> camera \<Rightarrow> event list \<Rightarrow> outcome" where
  "handle_events surf c [] = Inr c"
| "handle_events surf c (e # es) =
     (case handle_event surf c e of
        Inl x \<Rightarrow> Inl x
      | Inr c1 \<Rightarrow> handle_events surf c1 es)"

text \<open>The projection used by \<^verbatim>\<open>draw\<close> and \<^verbatim>\<open>is_clicked\<close> (planet.py, lines 160 and 225).\<close>

definition project :: "(int \<times> int) option \<Rightarrow> camera \<Rightarrow> vec2 \<Rightarrow> vec2" where
  "project surf c world = vadd (vscale (vsub world (position c)) (zoom c)) (screen_center surf)"

text \<open>Unary minus of a vector, as in a pan by \<open>-d\<close>.\<close>

definition vneg :: "vec2 \<Rightarrow> vec2" where
  "vneg p = (- fst p, - snd p)"

text \<open>The mouse events among the events (those handled below line 172).\<close>

fun is_mouse_event :: "event \<Rightarrow> bool" where
  "is_mouse_event (MOUSEBUTTONDOWN button pos) = True"
| "is_mouse_event (MOUSEBUTTONUP button) = True"
| "is_mouse_event (MOUSEMOTION rel) = True"
| "is_mouse_event e = False"

text \<open>Counting the touch-downs and touch-ups of an event sequence.\<close>

fun is_finger_down :: "event \<Rightarrow> bool" where
  "is_finger_down (FINGERDOWN finger_id x y) = True"
| "is_finger_down e = False"

fun is_finger_up :: "event \<Rightarrow> bool" where
  "is_finger_up (FINGERUP finger_id) = True"
| "is_finger_up e = False"

definition count_downs :: "event list \<Rightarrow> nat" where
  "count_downs es = length (filter is_finger_down es)"

definition count_ups :: "event list \<Rightarrow> nat" where
  "count_ups es = length (filter is_finger_up es)"

text \<open>
  A touch sequence follows the contact protocol from the set \<open>A\<close> of active finger ids when
  every touch-down carries an id that is not active, and every touch-up and touch-motion
  carries an active one. Other events do not matter.
\<close>

fun touch_protocol :: "int set \<Rightarrow> event list \<Rightarrow> bool" where
  "touch_protocol A [] = True"
| "touch_protocol A (FINGERDOWN finger_id x y # es) =
     (finger_id \<notin> A \<and> touch_protocol (insert finger_id A) es)"
| "touch_protocol A (FINGERUP finger_id # es) =
     (finger_id \<in> A \<and> touch_protocol (A - {finger_id}) es)"
| "touch_protocol A (FINGERMOTION finger_id x y # es) =
     (finger_id \<in> A \<and> touch_protocol A es)"
| "touch_protocol A (e # es) = touch_protocol A es"

section \<open>The bodies (planet.py)\<close>

text \<open>
  The fields of class \<^verbatim>\<open>Planet\<close>. \<^verbatim>\<open>parent\<close> is a reference to another \<^verbatim>\<open>Planet\<close>
  object (possibly the body itself), so the bodies live in a store, a list of planets, and
  a reference is an index into it. Every body owns its \<^verbatim>\<open>position\<close> vector: the
  constructor creates it, and the only assignment to the field stores a copy (line 133),
  so positions are kept by value. A loaded image is an opaque pygame surface.
\<close>

typedecl surface

text \<open>
  The first pass stores \<^verbatim>\<open>d.get("parent_name")\<close> as it is, so the field holds whatever
  value the JSON record has there: \<^verbatim>\<open>None\<close>, a bool, a number, a string, a list or a dict.
  The second pass tests its truth value and uses it as a dict key, which lists and dicts
  cannot be.
\<close>

datatype py_value =
    PyNone
  | PyBool bool
  | PyInt int
  | PyFloat real
  | PyStr string
  | PyList "py_value list"
  | PyDict "(string \<times> py_value) list"

fun truthy :: "py_value \<Rightarrow> bool" where
  "truthy PyNone = False"
| "truthy (PyBool b) = b"
| "truthy (PyInt n) = (n \<noteq> 0)"
| "truthy (PyFloat x) = (x \<noteq> 0)"
| "truthy (PyStr s) = (s \<noteq> [])"
| "truthy (PyList xs) = (xs \<noteq> [])"
| "truthy (PyDict kvs) = (kvs \<noteq> [])"

fun hashable :: "py_value \<Rightarrow> bool" where
  "hashable (PyList xs) = False"
| "hashable (PyDict kvs) = False"
| "hashable v = True"

record planet =
  planet_name :: string
  radius_km :: real
  a_au :: real
  period_days :: real
  color :: "nat \<times> nat \<times> nat"
  draw_orbit :: bool
  fact :: string
  angle :: real
  radius_px :: real
  au_to_px :: real
  time_scale :: real
  position :: vec2
  parent_name :: py_value
  parent :: "nat option"
  image :: "surface option"

text \<open>
  \<^verbatim>\<open>Planet.__init__\<close> (lines 53-85), with the colour already converted and the outcome of
  the image lookup as parameters.
\<close>

definition planet_init ::
  "string \<Rightarrow> real \<Rightarrow> real \<Rightarrow> real \<Rightarrow> nat \<times> nat \<times> nat \<Rightarrow> bool \<Rightarrow> string \<Rightarrow>
   py_value \<Rightarrow> surface option \<Rightarrow> planet" where
  "planet_init name rkm a per col orbit txt pname img =
     \<lparr> planet_name = name, radius_km = rkm, a_au = a, period_days = per, color = col,
       draw_orbit = orbit, fact = txt, angle = 0, radius_px = 5, au_to_px = 1000,
       time_scale = 20000, position = (0, 0), parent_name = pname, parent = None,
       image = img \<rparr>"

text \<open>Python's \<^verbatim>\<open>%\<close> on floats, for a non-zero modulus: the result has the sign of \<open>b\<close>.\<close>

definition py_mod :: "real \<Rightarrow> real \<Rightarrow> real" where
  "py_mod a b = a - b * of_int \<lfloor>a / b\<rfloor>"

text \<open>
  \<^verbatim>\<open>update_position\<close> (lines 124-152) for the body at index \<open>i\<close> of the store. Only that
  body is written. In the orbiting branch the parent's coordinates are read before the
  body's own are written, also when the body is its own parent.
\<close>

definition update_position :: "planet list \<Rightarrow> nat \<Rightarrow> real \<Rightarrow> planet list" where
  "update_position s i delta =
     (let self = s ! i in
      if period_days self \<le> 0 \<or> a_au self \<le> 0 then
        (case parent self of
           None \<Rightarrow> s[i := self\<lparr>position := (0, 0)\<rparr>]
         | Some j \<Rightarrow> s[i := self\<lparr>position := position (s ! j)\<rparr>])
      else
        (let T_real = period_days self * 86400 in
         if T_real = 0 then s
         else
           (let omega = (2 * pi * time_scale self) / T_real;
                new_angle = py_mod (angle self + omega * delta) (2 * pi);
                r = a_au self * au_to_px self;
                rel_x = cos new_angle * r;
                rel_y = sin new_angle * r
            in case parent self of
                 None \<Rightarrow> s[i := self\<lparr>angle := new_angle, position := (rel_x, rel_y)\<rparr>]
               | Some j \<Rightarrow>
                   s[i := self\<lparr>angle := new_angle,
                                position := (fst (position (s ! j)) + rel_x,
                                             snd (position (s ! j)) + rel_y)\<rparr>])))"

text \<open>
  One frame of the main loop (\<^verbatim>\<open>for p in bodies: p.update_position(dt)\<close>): the bodies are
  updated in the order of the list of references.
\<close>

fun update_all :: "planet list \<Rightarrow> nat list \<Rightarrow> real \<Rightarrow> planet list" where
  "update_all s [] delta = s"
| "update_all s (i # order) delta = update_all (update_position s i delta) order delta"

section \<open>Linking the bodies (main.py)\<close>

text \<open>
  The second pass of \<^verbatim>\<open>load_solar_system\<close> (lines 74-87), on the bodies the first pass
  built; their names are strings, since the constructor calls \<^verbatim>\<open>strip\<close> on the name.
  \<^verbatim>\<open>by_name\<close> is a dict comprehension, so of two bodies with one name the later one wins.
  A parent name that is falsy (\<^verbatim>\<open>None\<close>, empty, zero) is skipped. \<^verbatim>\<open>by_name.get\<close> hashes
  its argument: a list or a dict raises \<^verbatim>\<open>TypeError\<close>, which nothing catches, and any other
  value that is not a string is not a key. A name that is not found only prints a
  warning. The pass has no \<^verbatim>\<open>raise\<close> of its own and no check of the links it makes. The
  stable sort puts the bodies without a parent first. The result is the store with the
  links set and the returned list as a list of references.
\<close>

datatype link_error = TypeError

definition by_name :: "planet list \<Rightarrow> string \<Rightarrow> nat option" where
  "by_name bodies = map_of (rev (zip (map planet_name bodies) [0..<length bodies]))"

fun by_name_get :: "planet list \<Rightarrow> py_value \<Rightarrow> link_error + nat option" where
  "by_name_get bodies (PyList xs) = Inl TypeError"
| "by_name_get bodies (PyDict kvs) = Inl TypeError"
| "by_name_get bodies (PyStr n) = Inr (by_name bodies n)"
| "by_name_get bodies v = Inr None"

definition link_parent :: "planet list \<Rightarrow> planet \<Rightarrow> link_error + planet" where
  "link_parent bodies p =
     (if truthy (parent_name p) then
        (case by_name_get bodies (parent_name p) of
           Inl e \<Rightarrow> Inl e
         | Inr None \<Rightarrow> Inr p
         | Inr (Some j) \<Rightarrow> Inr (p\<lparr>parent := Some j\<rparr>))
      else Inr p)"

text \<open>The loop of line 76: the first raise ends it.\<close>

fun link_all :: "planet list \<Rightarrow> planet list \<Rightarrow> link_error + planet list" where
  "link_all bodies [] = Inr []"
| "link_all bodies (p # ps) =
     (case link_parent bodies p of
        Inl e \<Rightarrow> Inl e
      | Inr p1 \<Rightarrow>
          (case link_all bodies ps of
             Inl e \<Rightarrow> Inl e
           | Inr ps1 \<Rightarrow> Inr (p1 # ps1)))"

definition load_solar_system_links ::
  "planet list \<Rightarrow> link_error + planet list \<times> nat list" where
  "load_solar_system_links bodies =
     (case link_all bodies bodies of
        Inl e \<Rightarrow> Inl e
      | Inr s \<Rightarrow>
          Inr (s, filter (\<lambda>i. parent (s ! i) = None) [0..<length s] @
                  filter (\<lambda>i. parent (s ! i) \<noteq> None) [0..<length s]))"




section \<open>Invariants and scenarios\<close>

text \<open>
  What one handler call may do to the zoom: the limits stay, and the zoom is kept, or it is
  the clamp of some request, which lies between the limits or, when the limits are
  inverted, is their maximum.
\<close>

definition zoom_step :: "camera \<Rightarrow> camera \<Rightarrow> bool" where
  "zoom_step c c' =
     (min_zoom c' = min_zoom c \<and> max_zoom c' = max_zoom c \<and>
      (zoom c' = zoom c \<or> zoom c' = max (min_zoom c) (max_zoom c) \<or>
       (min_zoom c \<le> zoom c' \<and> zoom c' \<le> max_zoom c)))"

text \<open>The zoom lies between the limits.\<close>

definition zoom_in_bounds :: "camera \<Rightarrow> bool" where
  "zoom_in_bounds c = (min_zoom c \<le> zoom c \<and> zoom c \<le> max_zoom c)"

text \<open>A positive lower limit and a positive zoom: no division of the camera can fail.\<close>

definition zoom_safe :: "camera \<Rightarrow> bool" where
  "zoom_safe c = (0 < min_zoom c \<and> 0 < zoom c)"

text \<open>A pinch baseline is only kept while at least two touches are active.\<close>

definition pinch_inv :: "camera \<Rightarrow> bool" where
  "pinch_inv c = (last_pinch_dist c \<noteq> None \<longrightarrow> 2 \<le> length (touches c))"

text \<open>
  The start of the pinch scenario: on an 800 x 600 screen, a default camera after touches
  1 and 2 came down at \<open>(100, 300)\<close> and \<open>(200, 300)\<close>.
\<close>

definition pinch_start :: camera where
  "pinch_start =
     state_of (handle_events (Some (800, 600)) camera_default
       [FINGERDOWN 1 (1/8) (1/2), FINGERDOWN 2 (1/4) (1/2)])"

text \<open>
  A small system as the link pass leaves it: a star, a planet, and a body with
  \<^verbatim>\<open>a_au = 0\<close> whose parent is the planet.
\<close>

definition demo_store :: "planet list" where
  "demo_store =
     (case load_solar_system_links
        [planet_init ''Sol'' 696340 0 0 (255, 204, 0) False [] PyNone None,
         planet_init ''Terra'' 6371 1 365 (0, 102, 255) True [] PyNone None,
         planet_init ''Base'' 1 0 0 (255, 255, 255) False [] (PyStr ''Terra'') None] of
        Inl e \<Rightarrow> []
      | Inr (s, order) \<Rightarrow> s)"

text \<open>
  A default camera whose position is \<^verbatim>\<open>Vector2(0.1, 0.0)\<close>: the literal \<^verbatim>\<open>0.1\<close> is the
  nearest double.
\<close>

definition pan_start :: camera where
  "pan_start = camera_default\<lparr>camera.position := (float64_round (1/10), 0)\<rparr>"


section \<open>Zooming around a point\<close>

lemma vdiv_nonzero: "k \<noteq> 0 \<Longrightarrow> vdiv p k = Inr (vquot p k)"
  by (simp add: vdiv_def)

lemma state_of_simps [simp]: "state_of (Inr c) = c" "state_of (Inl (e, c)) = c"
  by (simp_all add: state_of_def)

lemma raised_simps [simp]: "raised (Inr c) = False" "raised (Inl x) = True"
  by (simp_all add: raised_def)

text \<open>
  Claim C1, as stated, asks for zoom-anchor invariance at every camera with a positive zoom
  and every requested zoom. The constructor accepts any \<^verbatim>\<open>min_zoom\<close>; with
  \<^verbatim>\<open>min_zoom = 0\<close> a requested zoom of 0 is clamped to 0, and line 61 divides by it:
  the call raises after the zoom was committed, and no position is computed.
\<close>

theorem zoom_anchor_counterexample:
  "0 < zoom (camera_init 0 20 1) \<and>
   apply_zoom_around_point None (camera_init 0 20 1) 0 (10, 0)
     = Inl (ZeroDivisionError, (camera_init 0 20 1)\<lparr>zoom := 0\<rparr>)"
  by (simp add: apply_zoom_around_point_def Let_def vdiv_def camera_init_def clamp_zoom_def)

text \<open>
  Claim C1, amended: for every camera with a positive zoom, every anchor \<open>A\<close> and every
  requested zoom whose clamped value is not 0, \<^verbatim>\<open>_apply_zoom_around_point\<close> returns, commits
  the clamped zoom, and the world point that projected to \<open>A\<close> before the call projects
  exactly to \<open>A\<close> afterwards.
\<close>

theorem zoom_anchor_invariance:
  assumes "0 < zoom c" and "clamp_zoom c new_zoom \<noteq> 0"
  shows "\<exists>c'. apply_zoom_around_point surf c new_zoom A = Inr c'
           \<and> zoom c' = clamp_zoom c new_zoom
           \<and> project surf c'
                (vadd (vquot (vsub A (screen_center surf)) (zoom c)) (camera.position c)) = A"
proof -
  from assms(1) have z: "zoom c \<noteq> 0" by simp
  show ?thesis
    using z assms(2)
    by (simp add: apply_zoom_around_point_def Let_def vdiv_nonzero project_def
        vadd_def vsub_def vscale_def vquot_def)
qed

theorem zoom_anchor_invariance_witness:
  "0 < zoom camera_default \<and> clamp_zoom camera_default 2 \<noteq> 0 \<and>
   project (Some (800, 600))
     (state_of (apply_zoom_around_point (Some (800, 600)) camera_default 2 (10, 20)))
     (vadd (vquot (vsub (10, 20) (screen_center (Some (800, 600)))) (zoom camera_default))
        (camera.position camera_default)) = (10, 20)"
proof -
  have h1: "0 < zoom camera_default"
    by (simp add: camera_default_def camera_init_def)
  have h2: "clamp_zoom camera_default 2 \<noteq> 0"
    by (simp add: camera_default_def camera_init_def clamp_zoom_def)
  from zoom_anchor_invariance [OF h1 h2, of "Some (800, 600)" "(10, 20)"]
  obtain c' where
    "apply_zoom_around_point (Some (800, 600)) camera_default 2 (10, 20) = Inr c'"
    "project (Some (800, 600)) c'
       (vadd (vquot (vsub (10, 20) (screen_center (Some (800, 600)))) (zoom camera_default))
          (camera.position camera_default)) = (10, 20)"
    by blast
  with h1 h2 show ?thesis by simp
qed

section \<open>Rounding to doubles\<close>

lemma pow2_powr: "pow2 e = 2 powr (of_int e)"
  by (simp add: pow2_def powr_int)

lemma pow2_pos [simp]: "0 < pow2 e"
  by (simp add: pow2_def)

lemma pow2_add: "pow2 (a + b) = pow2 a * pow2 b"
  by (simp add: pow2_powr powr_add)

lemma pow2_mono: "a \<le> b \<Longrightarrow> pow2 a \<le> pow2 b"
  by (simp add: pow2_powr)

lemma round_half_even_error: "\<bar>of_int (round_half_even y) - y\<bar> \<le> 1/2"
proof -
  have "of_int \<lfloor>y\<rfloor> \<le> y" "y < of_int \<lfloor>y\<rfloor> + 1" by linarith+
  then show ?thesis
    by (auto simp: round_half_even_def Let_def abs_le_iff)
qed

lemma round_half_even_of_int [simp]: "round_half_even (of_int n) = n"
  by (simp add: round_half_even_def)

lemma float64_exponent_eq:
  assumes "pow2 e \<le> x" and "x < pow2 (e + 1)" and "- 1022 \<le> e"
  shows "float64_exponent x = e"
proof -
  have "0 < x" using assms(1) pow2_pos [of e] by linarith
  moreover have "2 powr (of_int e) \<le> x \<and> x < 2 powr (of_int (e + 1))"
    using assms by (simp only: pow2_powr)
  ultimately have "\<lfloor>log 2 x\<rfloor> = e"
    by (simp add: floor_log_eq_powr_iff)
  with assms(3) show ?thesis by (simp add: float64_exponent_def)
qed

lemma float64_round_pos_eval:
  assumes "pow2 e \<le> x" and "x < pow2 (e + 1)" and "- 1022 \<le> e"
  shows "float64_round_pos x = of_int (round_half_even (x / pow2 (e - 52))) * pow2 (e - 52)"
  by (simp add: float64_round_pos_def Let_def float64_exponent_eq [OF assms])

lemma float64_round_pos_error:
  assumes "0 < x"
  shows "\<bar>float64_round_pos x - x\<bar> \<le> float64_unit * x + float64_tiny"
proof -
  define E where "E = float64_exponent x"
  define q where "q = pow2 (E - 52)"
  have q: "0 < q" by (simp add: q_def)
  have "\<bar>of_int (round_half_even (x / q)) - x / q\<bar> \<le> 1/2"
    by (rule round_half_even_error)
  then have a1: "\<bar>of_int (round_half_even (x / q)) - x / q\<bar> * q \<le> 1/2 * q"
    using q by (simp only: mult_right_mono less_imp_le)
  have a2: "\<bar>of_int (round_half_even (x / q)) - x / q\<bar> * q
      = \<bar>of_int (round_half_even (x / q)) * q - x\<bar>"
  proof -
    have "\<bar>of_int (round_half_even (x / q)) - x / q\<bar> * q
        = \<bar>(of_int (round_half_even (x / q)) - x / q) * q\<bar>"
      using q by (simp add: abs_mult)
    also have "(of_int (round_half_even (x / q)) - x / q) * q
        = of_int (round_half_even (x / q)) * q - x"
      using q by (simp add: left_diff_distrib)
    finally show ?thesis .
  qed
  have fr: "float64_round_pos x = of_int (round_half_even (x / q)) * q"
    by (simp add: float64_round_pos_def Let_def E_def q_def)
  have err: "\<bar>float64_round_pos x - x\<bar> \<le> q / 2"
    unfolding fr using a1 a2 by linarith
  have half: "q / 2 = pow2 (E - 53)"
    using pow2_add [of "E - 53" 1] by (simp add: q_def pow2_def [of 1])
  have "pow2 (E - 53) \<le> float64_unit * x + float64_tiny"
  proof (cases "- 1022 \<le> \<lfloor>log 2 x\<rfloor>")
    case True
    then have E: "E = \<lfloor>log 2 x\<rfloor>" by (simp add: E_def float64_exponent_def)
    have "2 powr (of_int \<lfloor>log 2 x\<rfloor>) \<le> 2 powr (log 2 x)"
      by (simp del: powr_log_cancel)
    then have "pow2 E \<le> x" using assms by (simp add: E pow2_powr)
    moreover have "pow2 (E - 53) = pow2 E * float64_unit"
      using pow2_add [of E "- 53"] by (simp add: pow2_def [of "- 53"] float64_unit_def)
    ultimately have "pow2 (E - 53) \<le> float64_unit * x"
      by (simp add: float64_unit_def)
    then show ?thesis by (simp add: float64_tiny_def add_increasing2)
  next
    case False
    then have "E = - 1022" by (simp add: E_def float64_exponent_def)
    then have "pow2 (E - 53) = float64_tiny"
      by (simp add: pow2_def float64_tiny_def)
    with assms show ?thesis by (simp add: float64_unit_def)
  qed
  with err half show ?thesis by simp
qed

lemma float64_round_error: "\<bar>float64_round x - x\<bar> \<le> float64_unit * \<bar>x\<bar> + float64_tiny"
proof -
  consider "x = 0" | "x < 0" | "0 < x" by linarith
  then show ?thesis
  proof cases
    case 1
    then show ?thesis by (simp add: float64_round_def float64_tiny_def)
  next
    case 2
    then have "0 < - x" by simp
    from float64_round_pos_error [OF this] 2 show ?thesis
      by (simp add: float64_round_def abs_if split: if_splits)
  next
    case 3
    from float64_round_pos_error [OF this] 3 show ?thesis
      by (simp add: float64_round_def)
  qed
qed

lemma float64_round_minus: "float64_round (- x) = - float64_round x"
  by (simp add: float64_round_def)

lemma float64_round_eval:
  assumes "pow2 e \<le> x" and "x < pow2 (e + 1)" and "- 1022 \<le> e"
  shows "float64_round x = of_int (round_half_even (x / pow2 (e - 52))) * pow2 (e - 52)"
proof -
  have "0 < x" using assms(1) pow2_pos [of e] by linarith
  then show ?thesis
    by (simp add: float64_round_def float64_round_pos_eval [OF assms])
qed

lemma round_half_even_eval:
  assumes "of_int n - 1/2 < y" and "y < of_int n + 1/2"
  shows "round_half_even y = n"
proof -
  consider "of_int n \<le> y" | "y < of_int n" by linarith
  then show ?thesis
  proof cases
    case 1
    with assms have "\<lfloor>y\<rfloor> = n" by (simp add: floor_eq_iff)
    with assms show ?thesis by (simp add: round_half_even_def Let_def)
  next
    case 2
    with assms have "\<lfloor>y\<rfloor> = n - 1" by (simp add: floor_eq_iff)
    with assms 2 show ?thesis by (simp add: round_half_even_def Let_def)
  qed
qed

lemma float64_tenth: "float64_round (1/10) = 3602879701896397 / 2 ^ 55"
proof -
  have "float64_round (1/10)
      = of_int (round_half_even ((1/10) / pow2 (- 4 - 52))) * pow2 (- 4 - 52)"
    by (rule float64_round_eval) (simp_all add: pow2_def)
  also have "round_half_even ((1/10) / pow2 (- 4 - 52)) = 7205759403792794"
    by (rule round_half_even_eval) (simp_all add: pow2_def)
  finally show ?thesis by (simp add: pow2_def)
qed

lemma float64_twentieth: "float64_round (5/100) = 3602879701896397 / 2 ^ 56"
proof -
  have "float64_round (5/100)
      = of_int (round_half_even ((5/100) / pow2 (- 5 - 52))) * pow2 (- 5 - 52)"
    by (rule float64_round_eval) (simp_all add: pow2_def)
  also have "round_half_even ((5/100) / pow2 (- 5 - 52)) = 7205759403792794"
    by (rule round_half_even_eval) (simp_all add: pow2_def)
  finally show ?thesis by (simp add: pow2_def)
qed

lemma float64_three: "float64_round 3 = 3"
proof -
  have "float64_round 3 = of_int (round_half_even (3 / pow2 (1 - 52))) * pow2 (1 - 52)"
    by (rule float64_round_eval) (simp_all add: pow2_def)
  also have "round_half_even (3 / pow2 (1 - 52)) = 3 * 2 ^ 51"
    by (rule round_half_even_eval) (simp_all add: pow2_def)
  finally show ?thesis by (simp add: pow2_def)
qed

lemma float64_step1:
  "float64_round (3602879701896397 / 2 ^ 55 - 3) = - (6530219459687219 / 2 ^ 51)"
proof -
  have "float64_round (3 - 3602879701896397 / 2 ^ 55)
      = of_int (round_half_even ((3 - 3602879701896397 / 2 ^ 55) / pow2 (1 - 52))) * pow2 (1 - 52)"
    by (rule float64_round_eval) (simp_all add: pow2_def)
  also have "round_half_even ((3 - 3602879701896397 / 2 ^ 55) / pow2 (1 - 52)) = 6530219459687219"
    by (rule round_half_even_eval) (simp_all add: pow2_def)
  finally have "float64_round (3 - 3602879701896397 / 2 ^ 55) = 6530219459687219 / 2 ^ 51"
    by (simp add: pow2_def)
  with float64_round_minus [of "3 - 3602879701896397 / 2 ^ 55"] show ?thesis by simp
qed

lemma float64_step2:
  "float64_round (- (6530219459687219 / 2 ^ 51) + 3) = 225179981368525 / 2 ^ 51"
proof -
  have "float64_round (- (6530219459687219 / 2 ^ 51) + 3)
      = of_int (round_half_even ((- (6530219459687219 / 2 ^ 51) + 3) / pow2 (- 4 - 52)))
          * pow2 (- 4 - 52)"
    by (rule float64_round_eval) (simp_all add: pow2_def)
  also have "round_half_even ((- (6530219459687219 / 2 ^ 51) + 3) / pow2 (- 4 - 52))
      = 7205759403792800"
    by (rule round_half_even_eval) (simp_all add: pow2_def)
  finally show ?thesis by (simp add: pow2_def)
qed

section \<open>Panning\<close>

lemma pan_with_delta_position:
  "camera.position (pan_with_delta c d) =
     (float64_round (fst (camera.position c)
        - float64_round (fst d * float64_round (3 / max (zoom c) (float64_round 0.05)))),
      float64_round (snd (camera.position c)
        - float64_round (snd d * float64_round (3 / max (zoom c) (float64_round 0.05)))))"
  by (simp add: pan_with_delta_def Let_def)

lemma pan_with_delta_zoom: "zoom (pan_with_delta c d) = zoom c"
  by (simp add: pan_with_delta_def Let_def)

lemma pan_with_delta_fields:
  "min_zoom (pan_with_delta c d) = min_zoom c"
  "max_zoom (pan_with_delta c d) = max_zoom c"
  "touches (pan_with_delta c d) = touches c"
  "last_pinch_dist (pan_with_delta c d) = last_pinch_dist c"
  by (simp_all add: pan_with_delta_def Let_def)

lemma pan_back_position:
  "camera.position (pan_with_delta (pan_with_delta c d) (vneg d)) =
     (float64_round (fst (camera.position (pan_with_delta c d))
        + float64_round (fst d * float64_round (3 / max (zoom c) (float64_round 0.05)))),
      float64_round (snd (camera.position (pan_with_delta c d))
        + float64_round (snd d * float64_round (3 / max (zoom c) (float64_round 0.05)))))"
  by (simp add: pan_with_delta_position [of "pan_with_delta c d"] pan_with_delta_zoom
      vneg_def float64_round_minus)

lemma round_trip_error:
  assumes "p1 = float64_round (p - m)" and "p2 = float64_round (p1 + m)"
  shows "\<bar>p2 - p\<bar> \<le> float64_unit * (\<bar>p - m\<bar> + \<bar>p1 + m\<bar>) + 2 * float64_tiny"
proof -
  have e1: "\<bar>p1 - (p - m)\<bar> \<le> float64_unit * \<bar>p - m\<bar> + float64_tiny"
    unfolding assms(1) by (rule float64_round_error)
  have e2: "\<bar>p2 - (p1 + m)\<bar> \<le> float64_unit * \<bar>p1 + m\<bar> + float64_tiny"
    unfolding assms(2) by (rule float64_round_error)
  have "\<bar>p2 - p\<bar> \<le> \<bar>p2 - (p1 + m)\<bar> + \<bar>p1 - (p - m)\<bar>" by linarith
  with e1 e2 show ?thesis by (simp add: distrib_left)
qed

lemma pan_start_position: "camera.position pan_start = (3602879701896397 / 2 ^ 55, 0)"
  by (simp add: pan_start_def float64_tenth)

lemma pan_start_scale:
  "float64_round (3 / max (zoom pan_start) (float64_round 0.05)) = 3"
proof -
  have "float64_round 0.05 = 3602879701896397 / 2 ^ 56"
    using float64_twentieth by simp
  then have "max (zoom pan_start) (float64_round 0.05) = 1"
    by (simp add: pan_start_def camera_default_def camera_init_def)
  then show ?thesis by (simp add: float64_three)
qed

lemma float64_zero: "float64_round 0 = 0"
  by (simp add: float64_round_def)

lemma pan_start_there:
  "camera.position (pan_with_delta pan_start (1, 0)) = (- (6530219459687219 / 2 ^ 51), 0)"
  by (simp only: pan_with_delta_position pan_start_scale pan_start_position fst_conv snd_conv
      mult_1 mult_zero_left diff_self float64_three float64_zero float64_step1)

lemma pan_start_back:
  "camera.position (pan_with_delta (pan_with_delta pan_start (1, 0)) (vneg (1, 0)))
     = (225179981368525 / 2 ^ 51, 0)"
  by (simp only: pan_back_position pan_start_there pan_start_scale fst_conv snd_conv
      mult_1 mult_zero_left add_0 float64_three float64_zero float64_step2)

text \<open>
  Claim C6, as stated, has the position return exactly. The pan works on doubles: from
  \<^verbatim>\<open>Vector2(0.1, 0.0)\<close> at zoom 1, the pan by \<open>(1, 0)\<close> rounds \<open>0.1 - 3.0\<close>, and the pan by
  \<open>(-1, 0)\<close> ends at \<open>225179981368525 / 2 ^ 51\<close>, the double printed as
  \<^verbatim>\<open>0.10000000000000009\<close>, not at the double \<^verbatim>\<open>0.1\<close>.
\<close>

theorem pan_reversible_counterexample:
  "camera.position pan_start = (3602879701896397 / 2 ^ 55, 0) \<and>
   camera.position (pan_with_delta (pan_with_delta pan_start (1, 0)) (vneg (1, 0)))
     = (225179981368525 / 2 ^ 51, 0) \<and>
   camera.position (pan_with_delta (pan_with_delta pan_start (1, 0)) (vneg (1, 0)))
     \<noteq> camera.position pan_start"
  by (simp add: pan_start_back pan_start_position)

text \<open>
  Claim C6, amended: for every camera, each pan moves the camera by
  \<open>-rel * (3.0 / max(zoom, 0.05))\<close> computed in doubles (the quotient, the products and the
  differences are rounded) and leaves the zoom as it is; a pan by \<open>d\<close> followed by a pan by
  \<open>-d\<close> moves the camera back by the same rounded amount \<open>m\<close>, and as long as the rounded
  results stay finite, each coordinate returns to its original value \<open>p\<close> up to the two
  rounding errors of the differences: with \<open>p1\<close> the coordinate in between, the distance is at
  most \<open>2 ^ -53 * (\<bar>p - m\<bar> + \<bar>p1 + m\<bar>) + 2 ^ -1074\<close>.
\<close>

theorem pan_reversible:
  assumes "k = float64_round (3 / max (zoom c) (float64_round 0.05))"
    and "mx = float64_round (fst d * k)" and "my = float64_round (snd d * k)"
    and "p1x = float64_round (fst (camera.position c) - mx)"
    and "p1y = float64_round (snd (camera.position c) - my)"
    and "float64_finite (fst d * k)" and "float64_finite (snd d * k)"
    and "float64_finite (fst (camera.position c) - mx)"
    and "float64_finite (snd (camera.position c) - my)"
    and "float64_finite (p1x + mx)" and "float64_finite (p1y + my)"
  shows "camera.position (pan_with_delta c d) = (p1x, p1y) \<and>
         zoom (pan_with_delta c d) = zoom c \<and>
         zoom (pan_with_delta (pan_with_delta c d) (vneg d)) = zoom c \<and>
         camera.position (pan_with_delta (pan_with_delta c d) (vneg d))
           = (float64_round (p1x + mx), float64_round (p1y + my)) \<and>
         \<bar>fst (camera.position (pan_with_delta (pan_with_delta c d) (vneg d)))
            - fst (camera.position c)\<bar>
           \<le> float64_unit * (\<bar>fst (camera.position c) - mx\<bar> + \<bar>p1x + mx\<bar>)
               + 2 * float64_tiny \<and>
         \<bar>snd (camera.position (pan_with_delta (pan_with_delta c d) (vneg d)))
            - snd (camera.position c)\<bar>
           \<le> float64_unit * (\<bar>snd (camera.position c) - my\<bar> + \<bar>p1y + my\<bar>)
               + 2 * float64_tiny"
proof -
  have there: "camera.position (pan_with_delta c d) = (p1x, p1y)"
    by (simp only: pan_with_delta_position assms(1-5))
  have ret: "camera.position (pan_with_delta (pan_with_delta c d) (vneg d))
      = (float64_round (p1x + mx), float64_round (p1y + my))"
    by (simp only: pan_back_position there fst_conv snd_conv assms(1-3))
  have ex: "\<bar>float64_round (p1x + mx) - fst (camera.position c)\<bar>
      \<le> float64_unit * (\<bar>fst (camera.position c) - mx\<bar> + \<bar>p1x + mx\<bar>) + 2 * float64_tiny"
    using assms(4) by (rule round_trip_error) simp
  have ey: "\<bar>float64_round (p1y + my) - snd (camera.position c)\<bar>
      \<le> float64_unit * (\<bar>snd (camera.position c) - my\<bar> + \<bar>p1y + my\<bar>) + 2 * float64_tiny"
    using assms(5) by (rule round_trip_error) simp
  show ?thesis
    using there ret ex ey by (simp add: pan_with_delta_zoom)
qed

theorem pan_reversible_witness:
  "(3::real) = float64_round (3 / max (zoom pan_start) (float64_round 0.05)) \<and>
   (3::real) = float64_round (fst (1::real, 0::real) * 3) \<and>
   (0::real) = float64_round (snd (1::real, 0::real) * 3) \<and>
   - (6530219459687219 / 2 ^ 51) = float64_round (fst (camera.position pan_start) - 3) \<and>
   (0::real) = float64_round (snd (camera.position pan_start) - 0) \<and>
   float64_finite (fst (1::real, 0::real) * 3) \<and>
   float64_finite (snd (1::real, 0::real) * 3) \<and>
   float64_finite (fst (camera.position pan_start) - 3) \<and>
   float64_finite (snd (camera.position pan_start) - 0) \<and>
   float64_finite (- (6530219459687219 / 2 ^ 51) + 3) \<and>
   float64_finite (0 + 0) \<and>
   camera.position (pan_with_delta pan_start (1, 0)) = (- (6530219459687219 / 2 ^ 51), 0) \<and>
   \<bar>fst (camera.position (pan_with_delta (pan_with_delta pan_start (1, 0)) (vneg (1, 0))))
      - fst (camera.position pan_start)\<bar>
     \<le> float64_unit * (\<bar>fst (camera.position pan_start) - 3\<bar>
                         + \<bar>- (6530219459687219 / 2 ^ 51) + 3\<bar>)
         + 2 * float64_tiny"
proof -
  have h1: "(3::real) = float64_round (3 / max (zoom pan_start) (float64_round 0.05))"
    by (simp only: pan_start_scale)
  have h2: "(3::real) = float64_round (fst (1::real, 0::real) * 3)"
    by (simp add: float64_three)
  have h3: "(0::real) = float64_round (snd (1::real, 0::real) * 3)"
    by (simp add: float64_zero)
  have h4: "- (6530219459687219 / 2 ^ 51) = float64_round (fst (camera.position pan_start) - 3)"
    by (simp only: pan_start_position fst_conv float64_step1)
  have h5: "(0::real) = float64_round (snd (camera.position pan_start) - 0)"
    by (simp add: pan_start_position float64_zero)
  have f1: "float64_finite (fst (1::real, 0::real) * 3)"
    by (simp add: float64_finite_def)
  have f2: "float64_finite (snd (1::real, 0::real) * 3)"
    by (simp add: float64_finite_def)
  have f3: "float64_finite (fst (camera.position pan_start) - 3)"
    by (simp add: float64_finite_def pan_start_position)
  have f4: "float64_finite (snd (camera.position pan_start) - 0)"
    by (simp add: float64_finite_def pan_start_position)
  have f5: "float64_finite (- (6530219459687219 / 2 ^ 51) + 3)"
    by (simp add: float64_finite_def)
  have f6: "float64_finite (0 + 0)"
    by (simp add: float64_finite_def)
  from pan_reversible [OF h1 h2 h3 h4 h5 f1 f2 f3 f4 f5 f6] h1 h2 h3 h4 h5 f1 f2 f3 f4 f5 f6
  show ?thesis by blast
qed
section \<open>Event routing\<close>

text \<open>
  Claim C9: while the touch dict is not empty, every mouse event (button down, button up,
  motion, and the scroll wheel, which is a button down) returns without raising and leaves
  the whole camera as it was.
\<close>

theorem mouse_ignored_while_touching:
  assumes "touches c \<noteq> []" and "is_mouse_event e"
  shows "handle_event surf c e = Inr c"
  using assms by (cases e) simp_all

theorem mouse_ignored_while_touching_witness:
  "touches (camera_default\<lparr>touches := [(1, (100, 300))]\<rparr>) \<noteq> [] \<and>
   is_mouse_event (MOUSEBUTTONDOWN 4 (400, 300)) \<and>
   handle_event (Some (800, 600)) (camera_default\<lparr>touches := [(1, (100, 300))]\<rparr>)
     (MOUSEBUTTONDOWN 4 (400, 300))
   = Inr (camera_default\<lparr>touches := [(1, (100, 300))]\<rparr>)"
  using mouse_ignored_while_touching
    [of "camera_default\<lparr>touches := [(1, (100, 300))]\<rparr>" "MOUSEBUTTONDOWN 4 (400, 300)"
        "Some (800, 600)"]
  by simp

section \<open>The zoom along a run of events\<close>

lemma azp_outcome:
  "apply_zoom_around_point surf c nz A =
     (if zoom c = 0 then Inl (ZeroDivisionError, c)
      else if clamp_zoom c nz = 0 then Inl (ZeroDivisionError, c\<lparr>zoom := clamp_zoom c nz\<rparr>)
      else Inr (c\<lparr>zoom := clamp_zoom c nz,
                 camera.position :=
                   vsub (vadd (vquot (vsub A (screen_center surf)) (zoom c)) (camera.position c))
                        (vquot (vsub A (screen_center surf)) (clamp_zoom c nz))\<rparr>))"
  by (simp add: apply_zoom_around_point_def Let_def vdiv_def)

lemma clamp_zoom_cases:
  "clamp_zoom c nz = max (min_zoom c) (max_zoom c) \<or>
   (min_zoom c \<le> clamp_zoom c nz \<and> clamp_zoom c nz \<le> max_zoom c)"
  by (auto simp: clamp_zoom_def max_def min_def)

lemma zoom_step_refl: "zoom_step c c"
  by (simp add: zoom_step_def)

lemma azp_zoom_step: "zoom_step c (state_of (apply_zoom_around_point surf c nz A))"
  using clamp_zoom_cases [of c nz] by (auto simp: azp_outcome zoom_step_def)

lemma azp_touches:
  "touches (state_of (apply_zoom_around_point surf c nz A)) = touches c"
  "last_pinch_dist (state_of (apply_zoom_around_point surf c nz A)) = last_pinch_dist c"
  by (simp_all add: azp_outcome)

lemma state_of_set_pinch_dist:
  "min_zoom (state_of (set_pinch_dist d r)) = min_zoom (state_of r)"
  "max_zoom (state_of (set_pinch_dist d r)) = max_zoom (state_of r)"
  "zoom (state_of (set_pinch_dist d r)) = zoom (state_of r)"
  "touches (state_of (set_pinch_dist d r)) = touches (state_of r)"
  by (cases r; auto simp: set_pinch_dist_def)+

lemma zoom_step_set_pinch_dist:
  "zoom_step c (state_of (set_pinch_dist d r)) = zoom_step c (state_of r)"
  by (simp add: zoom_step_def state_of_set_pinch_dist)

lemma zoom_step_cong:
  "min_zoom c1 = min_zoom c \<Longrightarrow> max_zoom c1 = max_zoom c \<Longrightarrow> zoom c1 = zoom c \<Longrightarrow>
   zoom_step c1 c' \<Longrightarrow> zoom_step c c'"
  by (simp add: zoom_step_def)

lemma motion_zoom_step: "zoom_step c (state_of (handle_finger_motion surf c f x y))"
proof -
  let ?c1 = "c\<lparr>touches := AList.update f (finger_pos surf x y) (touches c)\<rparr>"
  have "zoom_step ?c1 (state_of (handle_finger_motion surf c f x y))"
    unfolding handle_finger_motion_def Let_def pinch_step_def
    by (auto simp: zoom_step_set_pinch_dist azp_zoom_step zoom_step_refl
        zoom_step_def [of _ "pan_with_delta _ _"] pan_with_delta_fields pan_with_delta_zoom
        split: option.splits)
  then show ?thesis by (rule zoom_step_cong [rotated -1]) simp_all
qed

lemma down_zoom_step: "zoom_step c (handle_finger_down surf c f x y)"
  by (simp add: handle_finger_down_def Let_def zoom_step_def)

lemma up_zoom_step: "zoom_step c (handle_finger_up c f)"
  by (simp add: handle_finger_up_def Let_def zoom_step_def)

lemma handle_event_zoom_step: "zoom_step c (state_of (handle_event surf c e))"
  by (cases e)
     (simp_all add: motion_zoom_step down_zoom_step up_zoom_step azp_zoom_step zoom_step_refl,
      simp_all add: zoom_step_def pan_with_delta_fields pan_with_delta_zoom)

lemma zoom_step_in_bounds: "zoom_step c c' \<Longrightarrow> zoom_in_bounds c \<Longrightarrow> zoom_in_bounds c'"
  by (auto simp: zoom_step_def zoom_in_bounds_def)

lemma zoom_step_safe: "zoom_step c c' \<Longrightarrow> zoom_safe c \<Longrightarrow> zoom_safe c'"
  by (auto simp: zoom_step_def zoom_safe_def max_def)

lemma handle_events_step:
  "handle_events surf c (e # es) =
     (if raised (handle_event surf c e) then handle_event surf c e
      else handle_events surf (state_of (handle_event surf c e)) es)"
  by (cases "handle_event surf c e") auto

lemma handle_events_invariant:
  assumes step: "\<And>c e. P c \<Longrightarrow> P (state_of (handle_event surf c e))"
  shows "P c \<Longrightarrow> P (state_of (handle_events surf c es))"
proof (induction es arbitrary: c)
  case Nil
  then show ?case by simp
next
  case (Cons e es)
  from Cons.prems have "P (state_of (handle_event surf c e))" by (rule step)
  with Cons.IH show ?case by (simp only: handle_events_step split: if_split) simp
qed

lemma handle_events_in_bounds:
  "zoom_in_bounds c \<Longrightarrow> zoom_in_bounds (state_of (handle_events surf c es))"
  by (rule handle_events_invariant) (rule zoom_step_in_bounds [OF handle_event_zoom_step])

lemma handle_events_safe:
  "zoom_safe c \<Longrightarrow> zoom_safe (state_of (handle_events surf c es))"
  by (rule handle_events_invariant) (rule zoom_step_safe [OF handle_event_zoom_step])

lemma handle_events_limits:
  "min_zoom (state_of (handle_events surf c es)) = min_zoom c \<and>
   max_zoom (state_of (handle_events surf c es)) = max_zoom c"
proof -
  have "(\<lambda>c'. min_zoom c' = min_zoom c \<and> max_zoom c' = max_zoom c)
          (state_of (handle_events surf c es))"
    by (rule handle_events_invariant)
       (use handle_event_zoom_step in \<open>auto simp: zoom_step_def\<close>)
  then show ?thesis by simp
qed

lemma clamp_zoom_safe: "zoom_safe c \<Longrightarrow> 0 < clamp_zoom c nz"
  by (auto simp: zoom_safe_def clamp_zoom_def max_def)

lemma azp_safe: "zoom_safe c \<Longrightarrow> \<not> raised (apply_zoom_around_point surf c nz A)"
  using clamp_zoom_safe [of c nz] by (auto simp: azp_outcome zoom_safe_def)

lemma raised_set_pinch_dist: "raised (set_pinch_dist d r) = raised r"
  by (cases r) (simp_all add: set_pinch_dist_def)

lemma motion_safe: "zoom_safe c \<Longrightarrow> \<not> raised (handle_finger_motion surf c f x y)"
proof -
  assume s: "zoom_safe c"
  let ?c1 = "c\<lparr>touches := AList.update f (finger_pos surf x y) (touches c)\<rparr>"
  from s have s1: "zoom_safe ?c1" by (simp add: zoom_safe_def)
  show ?thesis
    unfolding handle_finger_motion_def Let_def pinch_step_def
    using azp_safe [OF s1]
    by (auto simp: raised_set_pinch_dist split: option.splits)
qed

lemma handle_event_safe: "zoom_safe c \<Longrightarrow> \<not> raised (handle_event surf c e)"
  by (cases e) (simp_all add: motion_safe azp_safe)

lemma handle_events_no_raise:
  "zoom_safe c \<Longrightarrow> \<not> raised (handle_events surf c es)"
proof (induction es arbitrary: c)
  case Nil
  then show ?case by simp
next
  case (Cons e es)
  have "zoom_safe (state_of (handle_event surf c e))"
    using Cons.prems by (rule zoom_step_safe [OF handle_event_zoom_step])
  with Cons.IH handle_event_safe [OF Cons.prems] show ?case
    by (simp only: handle_events_step split: if_split) simp
qed

text \<open>
  Claim C4, as stated, starts from any freshly constructed camera. The constructor sets the
  zoom to 1.0 whatever the limits are: a camera built with \<^verbatim>\<open>min_zoom = 2.0\<close> has its zoom
  below the lower limit until the first zoom step, and with inverted limits
  (\<^verbatim>\<open>min_zoom = 5.0\<close>, \<^verbatim>\<open>max_zoom = 2.0\<close>) a scroll step clamps the zoom to 5.0, above
  the upper limit.
\<close>

theorem zoom_bounds_counterexample:
  "zoom (state_of (handle_events None (camera_init 2 20 1) []))
     < min_zoom (state_of (handle_events None (camera_init 2 20 1) [])) \<and>
   zoom (state_of (handle_events None (camera_init 2 20 1) [MOUSEMOTION (5, 5)]))
     < min_zoom (state_of (handle_events None (camera_init 2 20 1) [MOUSEMOTION (5, 5)])) \<and>
   max_zoom (state_of (handle_events None (camera_init 5 2 1) [MOUSEBUTTONDOWN 4 (0, 0)]))
     < zoom (state_of (handle_events None (camera_init 5 2 1) [MOUSEBUTTONDOWN 4 (0, 0)]))"
  by (simp add: camera_init_def azp_outcome clamp_zoom_def)

text \<open>
  Claim C4, amended: for a camera constructed with \<^verbatim>\<open>min_zoom \<le> 1.0 \<le> max_zoom\<close> (the
  defaults are such), after every sequence of events given to \<^verbatim>\<open>handle_event\<close>, and also
  at a raise that ends it, the limits are the constructed ones and the zoom lies within
  them, inclusive.
\<close>

theorem zoom_bounds:
  assumes "mn \<le> 1" and "1 \<le> mx"
  shows "min_zoom (state_of (handle_events surf (camera_init mn mx sens) es)) = mn \<and>
         max_zoom (state_of (handle_events surf (camera_init mn mx sens) es)) = mx \<and>
         mn \<le> zoom (state_of (handle_events surf (camera_init mn mx sens) es)) \<and>
         zoom (state_of (handle_events surf (camera_init mn mx sens) es)) \<le> mx"
proof -
  have "zoom_in_bounds (camera_init mn mx sens)"
    using assms by (simp add: zoom_in_bounds_def camera_init_def)
  from handle_events_in_bounds [OF this, of surf es]
    handle_events_limits [of surf "camera_init mn mx sens" es]
  show ?thesis by (simp add: zoom_in_bounds_def camera_init_def)
qed

theorem zoom_bounds_witness:
  "(0.0015::real) \<le> 1 \<and> (1::real) \<le> 20 \<and>
   0.0015 \<le> zoom (state_of (handle_events (Some (800, 600)) (camera_init 0.0015 20 1)
              [MOUSEBUTTONDOWN 5 (400, 300), MOUSEBUTTONDOWN 4 (10, 20)])) \<and>
   zoom (state_of (handle_events (Some (800, 600)) (camera_init 0.0015 20 1)
              [MOUSEBUTTONDOWN 5 (400, 300), MOUSEBUTTONDOWN 4 (10, 20)])) \<le> 20"
proof -
  have h1: "(0.0015::real) \<le> 1" by simp
  have h2: "(1::real) \<le> 20" by simp
  from zoom_bounds [OF h1 h2] h1 h2 show ?thesis by blast
qed

text \<open>
  Claim C8, as stated, has \<^verbatim>\<open>min_zoom > 0\<close> enforced at construction. The constructor
  checks nothing: \<^verbatim>\<open>Camera(0.0, 0.0)\<close> is built, one scroll step clamps the zoom to 0, and
  line 61 divides by it.
\<close>

theorem zoom_positive_counterexample:
  "min_zoom (camera_init 0 0 1) = 0 \<and>
   handle_events None (camera_init 0 0 1) [MOUSEBUTTONDOWN 4 (0, 0)]
     = Inl (ZeroDivisionError, (camera_init 0 0 1)\<lparr>zoom := 0\<rparr>)"
  by (simp add: camera_init_def azp_outcome clamp_zoom_def)

text \<open>
  Claim C8, amended: for a camera constructed with \<^verbatim>\<open>min_zoom > 0\<close> (which the caller has
  to ensure), no sequence of events given to \<^verbatim>\<open>handle_event\<close> raises, so no division by
  zero occurs, and the zoom stays positive.
\<close>

theorem zoom_positive:
  assumes "0 < mn"
  shows "\<not> raised (handle_events surf (camera_init mn mx sens) es) \<and>
         0 < zoom (state_of (handle_events surf (camera_init mn mx sens) es))"
proof -
  have "zoom_safe (camera_init mn mx sens)"
    using assms by (simp add: zoom_safe_def camera_init_def)
  from handle_events_no_raise [OF this, of surf es] handle_events_safe [OF this, of surf es]
  show ?thesis by (simp add: zoom_safe_def)
qed


theorem zoom_positive_witness:
  "(0::real) < 0.0015 \<and>
   \<not> raised (handle_events (Some (800, 600)) (camera_init 0.0015 20 1)
              [MOUSEBUTTONDOWN 4 (400, 300), FINGERDOWN 1 (1/8) (1/2)]) \<and>
   0 < zoom (state_of (handle_events (Some (800, 600)) (camera_init 0.0015 20 1)
              [MOUSEBUTTONDOWN 4 (400, 300), FINGERDOWN 1 (1/8) (1/2)]))"
proof -
  have h: "(0::real) < 0.0015" by simp
  from zoom_positive [OF h] h show ?thesis by blast
qed

section \<open>The touches along a run of events\<close>

lemma length_update_ge: "length al \<le> length (AList.update k v al)"
  by (induct al) simp_all

lemma length_update_keys:
  "length (AList.update k v al) = (if k \<in> fst ` set al then length al else Suc (length al))"
  using arg_cong [OF AList.update_keys [of k v al], of length] by simp

lemma length_delete_key:
  "distinct (map fst al) \<Longrightarrow> k \<in> fst ` set al \<Longrightarrow> Suc (length (AList.delete k al)) = length al"
proof -
  assume d: "distinct (map fst al)" and k: "k \<in> fst ` set al"
  have "length (AList.delete k al) = length (removeAll k (map fst al))"
    using arg_cong [OF AList.delete_keys [of k al], of length] by simp
  also have "\<dots> = length (remove1 k (map fst al))"
    using d by (simp add: distinct_remove1_removeAll)
  also have "\<dots> = length al - 1"
    using k by (simp add: length_remove1)
  finally show ?thesis using k by (cases al) auto
qed

lemma length_ge_two: "xs \<noteq> [] \<Longrightarrow> length xs \<noteq> Suc 0 \<Longrightarrow> 2 \<le> length xs"
  by (cases xs) (auto simp: Suc_le_eq)

lemma down_pinch_inv: "pinch_inv c \<Longrightarrow> pinch_inv (handle_finger_down surf c f x y)"
  using length_update_ge [of "touches c" f "finger_pos surf x y"]
  by (auto simp: pinch_inv_def handle_finger_down_def Let_def)

lemma up_pinch_inv: "pinch_inv c \<Longrightarrow> pinch_inv (handle_finger_up c f)"
  by (auto simp: pinch_inv_def handle_finger_up_def Let_def length_ge_two)

lemma last_pinch_dist_set_pinch_dist:
  "last_pinch_dist (state_of (set_pinch_dist d r)) =
     (if raised r then last_pinch_dist (state_of r) else Some d)"
  by (cases r) (auto simp: set_pinch_dist_def)

lemma motion_touches:
  "touches (state_of (handle_finger_motion surf c f x y)) =
     AList.update f (finger_pos surf x y) (touches c)"
  unfolding handle_finger_motion_def Let_def pinch_step_def
  by (auto simp: state_of_set_pinch_dist azp_touches pan_with_delta_fields pan_with_delta_zoom split: option.splits)

lemma motion_pinch_inv: "pinch_inv c \<Longrightarrow> pinch_inv (state_of (handle_finger_motion surf c f x y))"
proof -
  assume inv: "pinch_inv c"
  let ?ts = "AList.update f (finger_pos surf x y) (touches c)"
  have len: "length (touches c) \<le> length ?ts" by (rule length_update_ge)
  show ?thesis
  proof (cases "length ?ts = 2")
    case True
    then show ?thesis by (simp add: pinch_inv_def motion_touches)
  next
    case False
    then have "last_pinch_dist (state_of (handle_finger_motion surf c f x y)) = last_pinch_dist c"
      by (simp add: handle_finger_motion_def Let_def pan_with_delta_fields pan_with_delta_zoom)
    with inv len show ?thesis by (auto simp: pinch_inv_def motion_touches)
  qed
qed

lemma handle_event_pinch_inv: "pinch_inv c \<Longrightarrow> pinch_inv (state_of (handle_event surf c e))"
proof (cases e)
  case (MOUSEBUTTONDOWN b p)
  assume "pinch_inv c"
  then show ?thesis using MOUSEBUTTONDOWN by (auto simp: pinch_inv_def azp_touches)
qed (auto simp: down_pinch_inv up_pinch_inv motion_pinch_inv,
     auto simp: pinch_inv_def pan_with_delta_fields pan_with_delta_zoom)

lemma handle_events_pinch_inv:
  "pinch_inv c \<Longrightarrow> pinch_inv (state_of (handle_events surf c es))"
  by (rule handle_events_invariant) (rule handle_event_pinch_inv)

lemma handle_event_touches:
  "touches (state_of (handle_event surf c e)) =
     (case e of
        FINGERDOWN f x y \<Rightarrow> AList.update f (finger_pos surf x y) (touches c)
      | FINGERUP f \<Rightarrow> AList.delete f (touches c)
      | FINGERMOTION f x y \<Rightarrow> AList.update f (finger_pos surf x y) (touches c)
      | _ \<Rightarrow> touches c)"
proof (cases e)
  case (FINGERUP f)
  show ?thesis
  proof (cases "map_of (touches c) f")
    case None
    then have "AList.delete f (touches c) = touches c"
      by (simp add: map_of_eq_None_iff)
    with None FINGERUP show ?thesis by (simp add: handle_finger_up_def Let_def)
  next
    case (Some p)
    with FINGERUP show ?thesis by (simp add: handle_finger_up_def Let_def)
  qed
qed (auto simp: handle_finger_down_def Let_def motion_touches azp_touches pan_with_delta_fields pan_with_delta_zoom)

lemma keys_update: "set (map fst (AList.update k v al)) = insert k (set (map fst al))"
  by (auto simp: AList.update_keys)

lemma keys_delete: "set (map fst (AList.delete k al)) = set (map fst al) - {k}"
  by (simp add: AList.delete_keys)

lemma count_Cons:
  "count_downs (e # es) = count_downs [e] + count_downs es"
  "count_ups (e # es) = count_ups [e] + count_ups es"
  by (simp_all add: count_downs_def count_ups_def)

lemma touch_protocol_count:
  "distinct (map fst (touches c)) \<Longrightarrow> touch_protocol (set (map fst (touches c))) es \<Longrightarrow>
   \<not> raised (handle_events surf c es) \<Longrightarrow>
   length (touches (state_of (handle_events surf c es))) + count_ups es
     = length (touches c) + count_downs es"
proof (induction es arbitrary: c)
  case Nil
  then show ?case by (simp add: count_ups_def count_downs_def)
next
  case (Cons e es)
  let ?c1 = "state_of (handle_event surf c e)"
  from Cons.prems(3) [unfolded handle_events_step]
  have nr: "\<not> raised (handle_event surf c e)"
    and nr': "\<not> raised (handle_events surf ?c1 es)"
    by (auto split: if_splits)
  have run: "handle_events surf c (e # es) = handle_events surf ?c1 es"
    using nr by (simp only: handle_events_step if_False)
  have d1: "distinct (map fst (touches ?c1))"
    unfolding handle_event_touches using Cons.prems(1)
    by (cases e) (simp_all add: handle_event_touches AList.distinct_update AList.distinct_delete)
  have p1: "touch_protocol (set (map fst (touches ?c1))) es"
    unfolding handle_event_touches using Cons.prems(2)
    by (cases e) (simp_all only: event.case keys_update keys_delete touch_protocol.simps insert_absorb)
  have step: "length (touches ?c1) + count_ups [e] = length (touches c) + count_downs [e]"
    unfolding handle_event_touches using Cons.prems(1,2)
    by (cases e)
       (auto simp: handle_event_touches length_update_keys count_ups_def count_downs_def
          length_delete_key)
  from Cons.IH [OF d1 p1 nr'] step show ?case
    unfolding run count_Cons [of e es] by linarith
qed

text \<open>
  Claim C2, as stated, counts every touch-down and touch-up. A touch-up of a finger that is
  not in the dict is skipped by the guard of line 95, and a touch-motion of such a finger
  adds it (lines 114-115): from a default camera, one stray touch-up leaves 0 touches where
  the count is -1, and one stray touch-motion leaves 1 touch where the count is 0. The
  handlers only act on a touch count of 0, 1 or 2: when a third finger comes down, the
  pinch baseline is kept, so it is not \<^verbatim>\<open>None\<close> with 3 touches.
\<close>

theorem touch_count_counterexample:
  "int (length (touches (state_of (handle_events None camera_default [FINGERUP 7]))))
     \<noteq> int (count_downs [FINGERUP 7]) - int (count_ups [FINGERUP 7]) \<and>
   int (length (touches (state_of (handle_events None camera_default [FINGERMOTION 7 0 0]))))
     \<noteq> int (count_downs [FINGERMOTION 7 0 0]) - int (count_ups [FINGERMOTION 7 0 0]) \<and>
   length (touches (state_of (handle_events None camera_default
      [FINGERDOWN 1 0 0, FINGERDOWN 2 1 0, FINGERDOWN 3 0 1]))) = 3 \<and>
   last_pinch_dist (state_of (handle_events None camera_default
      [FINGERDOWN 1 0 0, FINGERDOWN 2 1 0, FINGERDOWN 3 0 1])) \<noteq> None"
  by (simp add: camera_default_def camera_init_def handle_finger_up_def
      handle_finger_motion_def handle_finger_down_def Let_def count_downs_def count_ups_def
      pan_with_delta_fields pan_with_delta_zoom)


text \<open>
  Claim C2, amended: starting from a freshly constructed camera, after any sequence of events
  given to \<^verbatim>\<open>handle_event\<close>, \<^verbatim>\<open>last_pinch_dist\<close> is not \<^verbatim>\<open>None\<close> only when at least two
  touches are active; and when the sequence follows the contact protocol (a touch-down
  carries an inactive id, a touch-up or touch-motion an active one) and was handled without
  a raise, the number of touches is the number of touch-downs minus the number of
  touch-ups, which is not negative.
\<close>

theorem touch_count_invariant:
  "(last_pinch_dist (state_of (handle_events surf (camera_init mn mx sens) es)) \<noteq> None \<longrightarrow>
      2 \<le> length (touches (state_of (handle_events surf (camera_init mn mx sens) es)))) \<and>
   (touch_protocol {} es \<and> \<not> raised (handle_events surf (camera_init mn mx sens) es) \<longrightarrow>
      count_ups es \<le> count_downs es \<and>
      length (touches (state_of (handle_events surf (camera_init mn mx sens) es)))
        = count_downs es - count_ups es)"
proof -
  let ?c0 = "camera_init mn mx sens"
  have "pinch_inv ?c0" by (simp add: pinch_inv_def camera_init_def)
  then have a: "pinch_inv (state_of (handle_events surf ?c0 es))"
    by (rule handle_events_pinch_inv)
  have b: "length (touches (state_of (handle_events surf ?c0 es))) + count_ups es = count_downs es"
    if "touch_protocol {} es" "\<not> raised (handle_events surf ?c0 es)"
    using touch_protocol_count [of ?c0 es surf] that by (simp add: camera_init_def)
  from a b show ?thesis unfolding pinch_inv_def by fastforce
qed

theorem touch_count_invariant_witness:
  "last_pinch_dist (state_of (handle_events (Some (800, 600)) (camera_init 0.0015 20 1)
      [FINGERDOWN 1 (1/8) (1/2), FINGERDOWN 2 (1/4) (1/2)])) \<noteq> None \<and>
   touch_protocol {} [FINGERDOWN 1 (1/8) (1/2), FINGERDOWN 2 (1/4) (1/2)] \<and>
   \<not> raised (handle_events (Some (800, 600)) (camera_init 0.0015 20 1)
      [FINGERDOWN 1 (1/8) (1/2), FINGERDOWN 2 (1/4) (1/2)]) \<and>
   2 \<le> length (touches (state_of (handle_events (Some (800, 600)) (camera_init 0.0015 20 1)
      [FINGERDOWN 1 (1/8) (1/2), FINGERDOWN 2 (1/4) (1/2)]))) \<and>
   length (touches (state_of (handle_events (Some (800, 600)) (camera_init 0.0015 20 1)
      [FINGERDOWN 1 (1/8) (1/2), FINGERDOWN 2 (1/4) (1/2)])))
     = count_downs [FINGERDOWN 1 (1/8) (1/2), FINGERDOWN 2 (1/4) (1/2)]
       - count_ups [FINGERDOWN 1 (1/8) (1/2), FINGERDOWN 2 (1/4) (1/2)]"
proof -
  let ?es = "[FINGERDOWN 1 (1/8) (1/2), FINGERDOWN 2 (1/4) (1/2)]"
  let ?r = "handle_events (Some (800, 600)) (camera_init 0.0015 20 1) ?es"
  have h1: "last_pinch_dist (state_of ?r) \<noteq> None"
    by (simp add: camera_init_def handle_finger_down_def Let_def)
  have h2: "touch_protocol {} ?es" by simp
  have h3: "\<not> raised ?r" by simp
  from touch_count_invariant [of "Some (800, 600)" "0.0015" 20 1 ?es] h1 h2 h3
  show ?thesis by blast
qed

section \<open>The pinch scenario\<close>

lemma distance_to_horizontal: "distance_to (a, y) (b, y) = \<bar>b - a\<bar>"
  by (simp add: distance_to_def)

lemma pinch_start_eq:
  "pinch_start = camera_default\<lparr>dragging := True, last_mouse_pos := (100, 300),
     touches := [(1, (100, 300)), (2, (200, 300))], last_pinch_dist := Some 100,
     is_dragging := True\<rparr>"
  by (simp add: pinch_start_def camera_default_def camera_init_def handle_finger_down_def
      Let_def finger_pos_def screen_size_def distance_to_horizontal)

text \<open>
  Claim C3, as stated, anchors the zoom step at the midpoint before the move, \<open>(150, 300)\<close>.
  The handler stores the new position of the finger (line 115) before it reads the two
  fingers (line 126), so the anchor is the midpoint after the move, \<open>(125, 300)\<close>, and the
  outcome differs from a zoom around \<open>(150, 300)\<close>.
\<close>

theorem pinch_scenario_counterexample:
  "handle_event (Some (800, 600)) pinch_start (FINGERMOTION 1 (1/16) (1/2)) \<noteq>
     set_pinch_dist 150
       (apply_zoom_around_point (Some (800, 600))
          (pinch_start\<lparr>touches := [(1, (50, 300)), (2, (200, 300))]\<rparr>)
          (zoom pinch_start * 0.9) (150, 300))"
  by (simp add: pinch_start_eq camera_default_def camera_init_def handle_finger_motion_def
        Let_def pinch_step_def distance_to_horizontal finger_pos_def screen_size_def
        azp_outcome clamp_zoom_def set_pinch_dist_def screen_center_def
        vquot_def vadd_def vsub_def)

text \<open>
  Claim C3, amended: with exactly two touches at \<open>(100, 300)\<close> and \<open>(200, 300)\<close> and a pinch
  baseline of 100, a touch-motion that moves the first touch to \<open>(50, 300)\<close> makes exactly
  one zoom-in step, the zoom times 0.9 (clamped), through the zoom-around-point operation
  anchored at the midpoint after the move, \<open>(125, 300)\<close>; the baseline becomes 150. The zoom
  before and the clamped zoom after are taken to be non-zero, so that the step returns.
\<close>

theorem pinch_scenario:
  assumes "touches c = [(f1, (100, 300)), (f2, (200, 300))]" and "f1 \<noteq> f2"
    and "last_pinch_dist c = Some 100"
    and "finger_pos surf x y = (50, 300)"
    and "zoom c \<noteq> 0" and "clamp_zoom c (zoom c * 0.9) \<noteq> 0"
  shows "handle_event surf c (FINGERMOTION f1 x y) =
           set_pinch_dist 150
             (apply_zoom_around_point surf
                (c\<lparr>touches := [(f1, (50, 300)), (f2, (200, 300))]\<rparr>) (zoom c * 0.9) (125, 300))
         \<and> \<not> raised (handle_event surf c (FINGERMOTION f1 x y))
         \<and> zoom (state_of (handle_event surf c (FINGERMOTION f1 x y)))
             = clamp_zoom c (zoom c * 0.9)
         \<and> last_pinch_dist (state_of (handle_event surf c (FINGERMOTION f1 x y))) = Some 150
         \<and> touches (state_of (handle_event surf c (FINGERMOTION f1 x y)))
             = [(f1, (50, 300)), (f2, (200, 300))]"
proof -
  let ?c1 = "c\<lparr>touches := [(f1, (50, 300)), (f2, (200, 300))]\<rparr>"
  have eq: "handle_event surf c (FINGERMOTION f1 x y) =
      set_pinch_dist 150 (apply_zoom_around_point surf ?c1 (zoom c * 0.9) (125, 300))"
    using assms(1-4)
    by (simp add: handle_finger_motion_def Let_def pinch_step_def distance_to_horizontal
        vquot_def vadd_def)
  have cz: "clamp_zoom ?c1 (zoom c * 0.9) = clamp_zoom c (zoom c * 0.9)"
    by (simp add: clamp_zoom_def)
  show ?thesis
    unfolding eq using assms(5,6) cz
    by (simp add: azp_outcome set_pinch_dist_def)
qed

theorem pinch_scenario_witness:
  "touches pinch_start = [(1, (100, 300)), (2, (200, 300))] \<and> (1::int) \<noteq> 2 \<and>
   last_pinch_dist pinch_start = Some 100 \<and>
   finger_pos (Some (800, 600)) (1/16) (1/2) = (50, 300) \<and>
   zoom pinch_start \<noteq> 0 \<and> clamp_zoom pinch_start (zoom pinch_start * 0.9) \<noteq> 0 \<and>
   zoom (state_of (handle_event (Some (800, 600)) pinch_start (FINGERMOTION 1 (1/16) (1/2))))
     = 0.9 \<and>
   last_pinch_dist
     (state_of (handle_event (Some (800, 600)) pinch_start (FINGERMOTION 1 (1/16) (1/2))))
     = Some 150"
proof -
  have h1: "touches pinch_start = [(1, (100, 300)), (2, (200, 300))]"
    by (simp add: pinch_start_eq)
  have h2: "(1::int) \<noteq> 2" by simp
  have h3: "last_pinch_dist pinch_start = Some 100" by (simp add: pinch_start_eq)
  have h4: "finger_pos (Some (800, 600)) (1/16) (1/2) = (50, 300)"
    by (simp add: finger_pos_def screen_size_def)
  have h5: "zoom pinch_start \<noteq> 0"
    by (simp add: pinch_start_eq camera_default_def camera_init_def)
  have cz: "clamp_zoom pinch_start (zoom pinch_start * 0.9) = 0.9"
    by (simp add: pinch_start_eq camera_default_def camera_init_def clamp_zoom_def)
  then have h6: "clamp_zoom pinch_start (zoom pinch_start * 0.9) \<noteq> 0" by simp
  from pinch_scenario [OF h1 h2 h3 h4 h5 h6]
  have z: "zoom (state_of (handle_event (Some (800, 600)) pinch_start
                 (FINGERMOTION 1 (1/16) (1/2))))
             = clamp_zoom pinch_start (zoom pinch_start * 0.9)"
    and l: "last_pinch_dist (state_of (handle_event (Some (800, 600)) pinch_start
                 (FINGERMOTION 1 (1/16) (1/2)))) = Some 150"
    by blast+
  from z cz have z': "zoom (state_of (handle_event (Some (800, 600)) pinch_start
                 (FINGERMOTION 1 (1/16) (1/2)))) = 0.9"
    by (rule trans)
  from h1 h2 h3 h4 h5 h6 z' l show ?thesis by blast
qed

section \<open>Updating the positions\<close>

lemma update_position_shape:
  "\<exists>a p. update_position s k dt = s[k := (s ! k)\<lparr>angle := a, position := p\<rparr>]"
proof (cases "period_days (s ! k) \<le> 0 \<or> a_au (s ! k) \<le> 0")
  case True
  have "update_position s k dt =
      s[k := (s ! k)\<lparr>angle := angle (s ! k),
          position := (case parent (s ! k) of None \<Rightarrow> (0, 0) | Some j \<Rightarrow> position (s ! j))\<rparr>]"
    using True by (simp add: update_position_def Let_def split: option.splits)
  then show ?thesis by blast
next
  case False
  define na where
    "na = py_mod (angle (s ! k) +
            (2 * pi * time_scale (s ! k)) / (period_days (s ! k) * 86400) * dt) (2 * pi)"
  define r where "r = a_au (s ! k) * au_to_px (s ! k)"
  define np where
    "np = (case parent (s ! k) of
             None \<Rightarrow> (cos na * r, sin na * r)
           | Some j \<Rightarrow> (fst (position (s ! j)) + cos na * r,
                        snd (position (s ! j)) + sin na * r))"
  have "update_position s k dt = s[k := (s ! k)\<lparr>angle := na, position := np\<rparr>]"
    using False
    by (simp add: update_position_def Let_def na_def np_def r_def split: option.splits)
  then show ?thesis by blast
qed

lemma length_update_position [simp]: "length (update_position s k dt) = length s"
  using update_position_shape [of s k dt] by auto

lemma update_position_other: "k \<noteq> i \<Longrightarrow> update_position s k dt ! i = s ! i"
  using update_position_shape [of s k dt] by auto

lemma update_position_beyond: "length s \<le> k \<Longrightarrow> update_position s k dt = s"
proof -
  assume "length s \<le> k"
  moreover obtain a p where
    "update_position s k dt = s[k := (s ! k)\<lparr>angle := a, position := p\<rparr>]"
    using update_position_shape by blast
  ultimately show ?thesis by (simp add: list_update_beyond)
qed

lemma update_position_frame:
  "update_position s k dt ! i =
     (s ! i)\<lparr>angle := angle (update_position s k dt ! i),
             position := position (update_position s k dt ! i)\<rparr>"
proof (cases "k = i \<and> i < length s")
  case True
  obtain a p where
    "update_position s k dt = s[k := (s ! k)\<lparr>angle := a, position := p\<rparr>]"
    using update_position_shape by blast
  with True show ?thesis by simp
next
  case False
  have "update_position s k dt ! i = s ! i"
  proof (cases "k = i")
    case True
    with False have "length s \<le> k" by simp
    then show ?thesis by (simp add: update_position_beyond)
  next
    case False
    then show ?thesis by (rule update_position_other)
  qed
  then show ?thesis by simp
qed



lemma length_update_all [simp]: "length (update_all s order dt) = length s"
  by (induction order arbitrary: s) simp_all





lemma demo_store_eq:
  "demo_store =
     [planet_init ''Sol'' 696340 0 0 (255, 204, 0) False [] PyNone None,
      planet_init ''Terra'' 6371 1 365 (0, 102, 255) True [] PyNone None,
      (planet_init ''Base'' 1 0 0 (255, 255, 255) False [] (PyStr ''Terra'') None)
        \<lparr>parent := Some 1\<rparr>]"
  by (simp add: demo_store_def load_solar_system_links_def link_parent_def by_name_def
      planet_init_def upt_conv_Cons)



text \<open>
  Claim C10: for every body and every \<open>dt\<close>, \<^verbatim>\<open>update_position\<close> changes at most the fields
  \<^verbatim>\<open>angle\<close> and \<^verbatim>\<open>position\<close> of that body: every other field keeps its value, in the
  degenerate branch the angle is kept too, and no other body of the store is touched.
\<close>

theorem update_position_frame_fields:
  "planet_name (update_position s i dt ! i) = planet_name (s ! i) \<and>
   radius_km (update_position s i dt ! i) = radius_km (s ! i) \<and>
   a_au (update_position s i dt ! i) = a_au (s ! i) \<and>
   period_days (update_position s i dt ! i) = period_days (s ! i) \<and>
   color (update_position s i dt ! i) = color (s ! i) \<and>
   draw_orbit (update_position s i dt ! i) = draw_orbit (s ! i) \<and>
   fact (update_position s i dt ! i) = fact (s ! i) \<and>
   radius_px (update_position s i dt ! i) = radius_px (s ! i) \<and>
   au_to_px (update_position s i dt ! i) = au_to_px (s ! i) \<and>
   time_scale (update_position s i dt ! i) = time_scale (s ! i) \<and>
   parent (update_position s i dt ! i) = parent (s ! i) \<and>
   parent_name (update_position s i dt ! i) = parent_name (s ! i) \<and>
   image (update_position s i dt ! i) = image (s ! i) \<and>
   (period_days (s ! i) \<le> 0 \<or> a_au (s ! i) \<le> 0 \<longrightarrow>
      angle (update_position s i dt ! i) = angle (s ! i)) \<and>
   length (update_position s i dt) = length s \<and>
   (\<forall>k. k \<noteq> i \<longrightarrow> update_position s i dt ! k = s ! k)"
proof -
  have deg: "angle (update_position s i dt ! i) = angle (s ! i)"
    if "period_days (s ! i) \<le> 0 \<or> a_au (s ! i) \<le> 0"
  proof (cases "i < length s")
    case True
    with that show ?thesis
      by (auto simp: update_position_def Let_def split: option.splits)
  next
    case False
    then have "update_position s i dt = s"
      by (simp add: update_position_beyond)
    then show ?thesis by simp
  qed
  have fr: "update_position s i dt ! i =
     (s ! i)\<lparr>angle := angle (update_position s i dt ! i),
             position := position (update_position s i dt ! i)\<rparr>"
    by (rule update_position_frame)
  have fields:
    "planet_name (update_position s i dt ! i) = planet_name (s ! i)"
    "radius_km (update_position s i dt ! i) = radius_km (s ! i)"
    "a_au (update_position s i dt ! i) = a_au (s ! i)"
    "period_days (update_position s i dt ! i) = period_days (s ! i)"
    "color (update_position s i dt ! i) = color (s ! i)"
    "draw_orbit (update_position s i dt ! i) = draw_orbit (s ! i)"
    "fact (update_position s i dt ! i) = fact (s ! i)"
    "radius_px (update_position s i dt ! i) = radius_px (s ! i)"
    "au_to_px (update_position s i dt ! i) = au_to_px (s ! i)"
    "time_scale (update_position s i dt ! i) = time_scale (s ! i)"
    "parent (update_position s i dt ! i) = parent (s ! i)"
    "parent_name (update_position s i dt ! i) = parent_name (s ! i)"
    "image (update_position s i dt ! i) = image (s ! i)"
    by (subst fr, simp)+
  from fields deg show ?thesis
    by (simp add: update_position_other)
qed

theorem update_position_frame_fields_witness:
  "(period_days (demo_store ! 2) \<le> 0 \<or> a_au (demo_store ! 2) \<le> 0) \<and>
   angle (update_position demo_store 2 (1/60) ! 2) = angle (demo_store ! 2) \<and>
   planet_name (update_position demo_store 2 (1/60) ! 2) = ''Base'' \<and>
   (1::nat) \<noteq> 2 \<and>
   update_position demo_store 2 (1/60) ! 1 = demo_store ! 1"
proof -
  have h2: "period_days (demo_store ! 2) \<le> 0 \<or> a_au (demo_store ! 2) \<le> 0"
    by (simp add: demo_store_eq planet_init_def)
  have n: "planet_name (demo_store ! 2) = ''Base''"
    by (simp add: demo_store_eq planet_init_def)
  have k: "(1::nat) \<noteq> 2" by simp
  note th = update_position_frame_fields [of demo_store 2 "1/60"]
  from th h2 have a: "angle (update_position demo_store 2 (1/60) ! 2) = angle (demo_store ! 2)"
    by blast
  from th n have b: "planet_name (update_position demo_store 2 (1/60) ! 2) = ''Base''"
    by simp
  from th k have c: "update_position demo_store 2 (1/60) ! 1 = demo_store ! 1"
    by blast
  from h2 a b k c show ?thesis by blast
qed

section \<open>Linking the bodies\<close>







text \<open>
  The error the pass can end with is not about cycles: a parent name that is a non-empty
  list cannot be hashed.
\<close>

lemma unhashable_parent_name:
  "load_solar_system_links
     [planet_init ''Lua'' 1737 1 27 (200, 200, 200) True [] (PyList [PyStr ''Terra'']) None]
   = Inl TypeError"
  by (simp add: load_solar_system_links_def link_parent_def planet_init_def)



end
